theory Spec2Isabelle
  imports Main
begin

section \<open>The timeline verification script\<close>

text \<open>
  The program is \<^verbatim>\<open>verification/verify_timeline_images.py\<close>: one function,
  \<^verbatim>\<open>test_timeline_images\<close>, that drives a headless browser through the Playwright
  synchronous API. The script is embedded as a function over an explicit state
  (the calls issued so far, standard output, the files on disk, the document the
  page shows) in an exception monad: every library call either returns or raises,
  and what it does is decided by a \<open>world\<close>, the part of the run that the script
  does not control (the browser, the application under test).
\<close>

subsection \<open>Python values\<close>

text \<open>
  Playwright raises \<^verbatim>\<open>Error\<close> and its subclass \<^verbatim>\<open>TimeoutError\<close>. Both derive from
  \<^verbatim>\<open>Exception\<close>, so the clause \<^verbatim>\<open>except Exception as e\<close> catches either.
\<close>

datatype py_exception = Error string | TimeoutError string

text \<open>\<^verbatim>\<open>str(e)\<close>, which is what \<^verbatim>\<open>{e}\<close> in an f-string renders.\<close>

fun exn_str :: "py_exception \<Rightarrow> string" where
  "exn_str (Error m) = m"
| "exn_str (TimeoutError m) = m"

text \<open>
  \<^verbatim>\<open>{src}\<close> in an f-string, for a value that is a string or \<^verbatim>\<open>None\<close>:
  Python renders \<^verbatim>\<open>None\<close> as the four letters \<^verbatim>\<open>None\<close>.
\<close>

fun py_format :: "string option \<Rightarrow> string" where
  "py_format None = ''None''"
| "py_format (Some v) = v"

definition digit_char :: "nat \<Rightarrow> char" where
  "digit_char d = (''0123456789'' ! d)"

fun str_nat :: "nat \<Rightarrow> string" where
  "str_nat n = (if n < 10 then [digit_char n] else str_nat (n div 10) @ [digit_char (n mod 10)])"

subsection \<open>The page: elements, text matching, locators\<close>

text \<open>
  A document is the list of its elements in document order; an element is
  identified by its position. For each element the world says what its
  (whitespace-normalised) text is, which CSS selectors it matches, after how many
  milliseconds of waiting it is visible (\<open>None\<close>: never), whether a click on it
  fails, and which attributes it carries.
\<close>

record element =
  el_text :: string
  el_css :: "string list"
  el_visible_after :: "nat option"
  el_click_exn :: "py_exception option"
  el_attrs :: "(string \<times> string) list"

definition lower_char :: "char \<Rightarrow> char" where
  "lower_char c =
     (case map_of (zip ''ABCDEFGHIJKLMNOPQRSTUVWXYZ'' ''abcdefghijklmnopqrstuvwxyz'') c of
        Some d \<Rightarrow> d
      | None \<Rightarrow> c)"

primrec starts_with :: "string \<Rightarrow> string \<Rightarrow> bool" where
  "starts_with [] hay = True"
| "starts_with (c # cs) hay = (case hay of [] \<Rightarrow> False | h # hs \<Rightarrow> c = h \<and> starts_with cs hs)"

primrec contains :: "string \<Rightarrow> string \<Rightarrow> bool" where
  "contains needle [] = (needle = [])"
| "contains needle (h # hs) = (starts_with needle (h # hs) \<or> contains needle hs)"

text \<open>
  Playwright's \<^verbatim>\<open>get_by_text(text, exact=...)\<close>: with \<^verbatim>\<open>exact=True\<close> the match is
  case-sensitive and on the whole string; otherwise (the default) it is
  case-insensitive and on a substring.
\<close>

definition text_matches :: "bool \<Rightarrow> string \<Rightarrow> string \<Rightarrow> bool" where
  "text_matches exact needle hay =
     (if exact then hay = needle
      else contains (map lower_char needle) (map lower_char hay))"

text \<open>
  A locator is a lazy query: \<^verbatim>\<open>page.get_by_text(t, exact=b)\<close>,
  \<^verbatim>\<open>page.locator(css)\<close>, and \<^verbatim>\<open>loc.last\<close>. It is resolved against the
  current document each time an operation is performed on it.
\<close>

datatype locator = GetByText string bool | Css string | Last locator

fun resolve :: "element list \<Rightarrow> locator \<Rightarrow> nat list" where
  "resolve d (GetByText t exact) =
     filter (\<lambda>i. text_matches exact t (el_text (d ! i))) [0..<length d]"
| "resolve d (Css sel) = filter (\<lambda>i. sel \<in> set (el_css (d ! i))) [0..<length d]"
| "resolve d (Last l) = (case resolve d l of [] \<Rightarrow> [] | m # ms \<Rightarrow> [last (m # ms)])"

subsection \<open>The world, the state, the calls\<close>

text \<open>
  The world fixes, for one run, the outcome of every call whose outcome the
  script does not decide: whether a call raises (\<open>None\<close>: it returns), after how
  many milliseconds a page-level selector is visible, the document once the page
  is ready, and the document after a click on a given element.
\<close>

record world =
  playwright_start_exn :: "py_exception option"
  launch_exn :: "py_exception option"
  new_page_exn :: "py_exception option"
  goto_exn :: "string \<Rightarrow> py_exception option"
  selector_visible_after :: "string \<Rightarrow> nat option"
  doc :: "element list"
  doc_after_click :: "nat \<Rightarrow> element list"
  pause_exn :: "py_exception option"
  screenshot_exn :: "py_exception option"
  close_exn :: "py_exception option"

text \<open>
  The calls the script issues, in order, with their arguments. \<open>Clicked i\<close> is
  the effect of a click that went through: element \<open>i\<close> received it.
\<close>

datatype event =
    Enter_sync_playwright
  | Exit_sync_playwright
  | Launch bool
  | New_page
  | Goto string
  | Wait_for_selector string nat
  | Wait_for locator nat
  | Click locator
  | Clicked nat
  | Get_attribute locator string
  | Wait_for_timeout nat
  | Screenshot string bool
  | Close

record screenshot =
  shot_full_page :: bool
  shot_doc :: "element list"

record state =
  trace :: "event list"
  stdout :: "string list"
  files :: "string \<rightharpoonup> screenshot"
  page_doc :: "element list"

type_synonym 'a action = "state \<Rightarrow> (py_exception + 'a) \<times> state"

definition seq :: "'a action \<Rightarrow> ('a \<Rightarrow> 'b action) \<Rightarrow> 'b action" where
  "seq m f s = (case m s of (Inl e, s') \<Rightarrow> (Inl e, s') | (Inr x, s') \<Rightarrow> f x s')"

text \<open>\<^verbatim>\<open>try: body  except Exception as e: handler\<close>\<close>

definition try_except :: "unit action \<Rightarrow> (py_exception \<Rightarrow> unit action) \<Rightarrow> unit action" where
  "try_except body handler s =
     (case body s of (Inl e, s') \<Rightarrow> handler e s' | (Inr x, s') \<Rightarrow> (Inr x, s'))"

definition log :: "event \<Rightarrow> state \<Rightarrow> state" where
  "log ev s = s\<lparr>trace := trace s @ [ev]\<rparr>"

definition call :: "event \<Rightarrow> py_exception option \<Rightarrow> unit action" where
  "call ev outcome s =
     (case outcome of None \<Rightarrow> (Inr (), log ev s) | Some e \<Rightarrow> (Inl e, log ev s))"

definition timeout_exceeded :: "nat \<Rightarrow> py_exception" where
  "timeout_exceeded ms = TimeoutError (''Timeout '' @ str_nat ms @ ''ms exceeded.'')"

definition strict_mode_violation :: "nat \<Rightarrow> py_exception" where
  "strict_mode_violation n =
     Error (''strict mode violation: locator resolved to '' @ str_nat n @ '' elements'')"

text \<open>
  Defaults of the library for arguments the script leaves out:
  \<^verbatim>\<open>get_by_text(text, exact=False)\<close>, \<^verbatim>\<open>screenshot(path, full_page=False)\<close>, and
  a limit of 30000 ms for an operation that is given none (\<^verbatim>\<open>click\<close>,
  \<^verbatim>\<open>get_attribute\<close>).
\<close>

definition default_exact :: bool where "default_exact = False"
definition default_full_page :: bool where "default_full_page = False"
definition default_timeout :: nat where "default_timeout = 30000"

definition visible_within :: "nat \<Rightarrow> nat option \<Rightarrow> bool" where
  "visible_within ms appears = (case appears of None \<Rightarrow> False | Some t \<Rightarrow> t \<le> ms)"

text \<open>
  \<^verbatim>\<open>with sync_playwright() as p: body\<close>: the context is entered, the body runs,
  and the context is left whether the body returned or raised; an exception of
  the body goes on propagating.
\<close>

definition with_sync_playwright :: "world \<Rightarrow> unit action \<Rightarrow> unit action" where
  "with_sync_playwright w body s =
     (case call Enter_sync_playwright (playwright_start_exn w) s of
        (Inl e, s') \<Rightarrow> (Inl e, s')
      | (Inr p, s') \<Rightarrow> (case body s' of (r, s'') \<Rightarrow> (r, log Exit_sync_playwright s'')))"

definition chromium_launch :: "world \<Rightarrow> bool \<Rightarrow> unit action" where
  "chromium_launch w headless = call (Launch headless) (launch_exn w)"

definition browser_new_page :: "world \<Rightarrow> unit action" where
  "browser_new_page w = call New_page (new_page_exn w)"

definition page_goto :: "world \<Rightarrow> string \<Rightarrow> unit action" where
  "page_goto w url s =
     (case goto_exn w url of
        None \<Rightarrow> (Inr (), (log (Goto url) s)\<lparr>page_doc := doc w\<rparr>)
      | Some e \<Rightarrow> (Inl e, log (Goto url) s))"

definition page_wait_for_selector :: "world \<Rightarrow> string \<Rightarrow> nat \<Rightarrow> unit action" where
  "page_wait_for_selector w sel ms =
     call (Wait_for_selector sel ms)
       (if visible_within ms (selector_visible_after w sel) then None
        else Some (timeout_exceeded ms))"

definition page_get_by_text :: "string \<Rightarrow> bool \<Rightarrow> locator" where
  "page_get_by_text t exact = GetByText t exact"

definition page_locator :: "string \<Rightarrow> locator" where
  "page_locator sel = Css sel"

definition locator_last :: "locator \<Rightarrow> locator" where
  "locator_last l = Last l"

text \<open>
  Operations on a locator are strict: on more than one match they raise, on no
  match they wait for one until the timeout. \<^verbatim>\<open>loc.last\<close> always resolves to at most
  one element, so it never violates strictness. \<^verbatim>\<open>wait_for(state="visible")\<close>
  returns when the element is visible within the limit, \<^verbatim>\<open>click\<close> changes the
  document to what the world says the click on that element opens, and
  \<^verbatim>\<open>get_attribute\<close> returns the attribute's value, or \<^verbatim>\<open>None\<close> when the element
  has no such attribute.
\<close>

definition locator_wait_for :: "locator \<Rightarrow> nat \<Rightarrow> unit action" where
  "locator_wait_for l ms s =
     (case resolve (page_doc s) l of
        [] \<Rightarrow> (Inl (timeout_exceeded ms), log (Wait_for l ms) s)
      | [i] \<Rightarrow>
          (if visible_within ms (el_visible_after (page_doc s ! i))
           then (Inr (), log (Wait_for l ms) s)
           else (Inl (timeout_exceeded ms), log (Wait_for l ms) s))
      | i # j # ms' \<Rightarrow>
          (Inl (strict_mode_violation (length (i # j # ms'))), log (Wait_for l ms) s))"

definition locator_click :: "world \<Rightarrow> locator \<Rightarrow> unit action" where
  "locator_click w l s =
     (case resolve (page_doc s) l of
        [] \<Rightarrow> (Inl (timeout_exceeded default_timeout), log (Click l) s)
      | [i] \<Rightarrow>
          (case el_click_exn (page_doc s ! i) of
             None \<Rightarrow> (Inr (), (log (Clicked i) (log (Click l) s))\<lparr>page_doc := doc_after_click w i\<rparr>)
           | Some e \<Rightarrow> (Inl e, log (Click l) s))
      | i # j # ms' \<Rightarrow>
          (Inl (strict_mode_violation (length (i # j # ms'))), log (Click l) s))"

definition locator_get_attribute :: "locator \<Rightarrow> string \<Rightarrow> (string option) action" where
  "locator_get_attribute l name s =
     (case resolve (page_doc s) l of
        [] \<Rightarrow> (Inl (timeout_exceeded default_timeout), log (Get_attribute l name) s)
      | [i] \<Rightarrow> (Inr (map_of (el_attrs (page_doc s ! i)) name), log (Get_attribute l name) s)
      | i # j # ms' \<Rightarrow>
          (Inl (strict_mode_violation (length (i # j # ms'))), log (Get_attribute l name) s))"

definition py_print :: "string \<Rightarrow> unit action" where
  "py_print line s = (Inr (), s\<lparr>stdout := stdout s @ [line]\<rparr>)"

definition page_wait_for_timeout :: "world \<Rightarrow> nat \<Rightarrow> unit action" where
  "page_wait_for_timeout w ms = call (Wait_for_timeout ms) (pause_exn w)"

definition page_screenshot :: "world \<Rightarrow> string \<Rightarrow> bool \<Rightarrow> unit action" where
  "page_screenshot w path full_page s =
     (case screenshot_exn w of
        None \<Rightarrow>
          (Inr (), (log (Screenshot path full_page) s)
             \<lparr>files := (files s)(path \<mapsto> \<lparr>shot_full_page = full_page, shot_doc = page_doc s\<rparr>)\<rparr>)
      | Some e \<Rightarrow> (Inl e, log (Screenshot path full_page) s))"

definition browser_close :: "world \<Rightarrow> unit action" where
  "browser_close w = call Close (close_exn w)"

subsection \<open>The script\<close>

definition target_url :: string where
  "target_url = ''http://localhost:3000/vast-timeline''"

definition readiness_marker :: string where
  "readiness_marker = ''text=Nusantara Timeline''"

definition target_text :: string where
  "target_text = ''The Sangiran Flourishing''"

definition overlay_query :: string where
  "overlay_query = ''div.absolute.z-50 img''"

definition screenshot_path :: string where
  "screenshot_path = ''verification/timeline_screenshot_clicked.png''"

definition event_label :: locator where
  "event_label = locator_last (page_get_by_text target_text default_exact)"

definition popover_img :: locator where
  "popover_img = page_locator overlay_query"

text \<open>The body of the \<^verbatim>\<open>try\<close> statement (lines 10 to 16).\<close>

definition try_block :: "world \<Rightarrow> unit action" where
  "try_block w =
     seq (locator_wait_for event_label 5000) (\<lambda>_.
     seq (locator_click w event_label) (\<lambda>_.
     seq (locator_wait_for popover_img 2000) (\<lambda>_.
     seq (locator_get_attribute popover_img ''src'') (\<lambda>src.
     py_print (''Image src: '' @ py_format src)))))"

text \<open>The handler (line 18).\<close>

definition except_block :: "py_exception \<Rightarrow> unit action" where
  "except_block e = py_print (''Error: '' @ exn_str e)"

text \<open>
  The function, statement by statement (lines 4 to 21). Nothing but the \<^verbatim>\<open>try\<close>
  statement catches an exception, and \<^verbatim>\<open>browser.close()\<close> is the last statement of
  the \<^verbatim>\<open>with\<close> body.
\<close>

definition test_timeline_images :: "world \<Rightarrow> unit action" where
  "test_timeline_images w =
     with_sync_playwright w
      (seq (chromium_launch w True) (\<lambda>_.
       seq (browser_new_page w) (\<lambda>_.
       seq (page_goto w target_url) (\<lambda>_.
       seq (page_wait_for_selector w readiness_marker 10000) (\<lambda>_.
       seq (try_except (try_block w) except_block) (\<lambda>_.
       seq (page_wait_for_timeout w 1000) (\<lambda>_.
       seq (page_screenshot w screenshot_path default_full_page) (\<lambda>_.
       browser_close w))))))))"

text \<open>
  A run of the script as a process: it starts with nothing issued and nothing
  printed, on the files that are on disk; the exit status is 0 when the function
  returns and 1 when an exception reaches the top level.
\<close>

definition initial :: "(string \<rightharpoonup> screenshot) \<Rightarrow> state" where
  "initial fs = \<lparr>trace = [], stdout = [], files = fs, page_doc = []\<rparr>"

definition run :: "world \<Rightarrow> (string \<rightharpoonup> screenshot) \<Rightarrow> (py_exception + unit) \<times> state" where
  "run w fs = test_timeline_images w (initial fs)"

definition exit_status :: "world \<Rightarrow> (string \<rightharpoonup> screenshot) \<Rightarrow> nat" where
  "exit_status w fs = (case fst (run w fs) of Inl e \<Rightarrow> 1 | Inr u \<Rightarrow> 0)"

subsection \<open>The browser session\<close>

text \<open>
  The script keeps no state of the browser: the session lives in the browser
  process, which the library drives. Its life is fixed by the calls the library
  receives, in their order, and by what they return. A \<^verbatim>\<open>launch\<close> that returns
  opens a session. A \<^verbatim>\<open>browser.close()\<close> that returns ends the session when it is
  open, and does nothing when it is not; one that raises leaves the session as it
  was. Leaving the \<^verbatim>\<open>sync_playwright()\<close> context stops the Playwright driver,
  which ends the browser it launched: a session still open is ended there.
  \<open>session_ends\<close> counts how often an open session was ended, and
  \<open>browser_after w t\<close> is the browser after the calls \<open>t\<close> of a run in the
  world \<open>w\<close>.
\<close>

record browser =
  session_open :: bool
  session_ends :: nat

fun browser_step :: "world \<Rightarrow> browser \<Rightarrow> event \<Rightarrow> browser" where
  "browser_step w b (Launch headless) =
     (if launch_exn w = None then b\<lparr>session_open := True\<rparr> else b)"
| "browser_step w b Close =
     (if close_exn w = None \<and> session_open b
      then b\<lparr>session_open := False, session_ends := Suc (session_ends b)\<rparr> else b)"
| "browser_step w b Exit_sync_playwright =
     (if session_open b
      then b\<lparr>session_open := False, session_ends := Suc (session_ends b)\<rparr> else b)"
| "browser_step w b ev = b"

definition browser_after :: "world \<Rightarrow> event list \<Rightarrow> browser" where
  "browser_after w t = foldl (browser_step w) \<lparr>session_open = False, session_ends = 0\<rparr> t"

subsection \<open>Observations on a run\<close>

text \<open>
  The definitions below name what the statements speak about; none of them is
  part of the script. \<open>reaches_ready\<close> says that every call before the
  \<^verbatim>\<open>try\<close> statement returns: the Playwright context starts, the browser
  launches, the page opens, navigation succeeds and the readiness marker is
  visible within its limit. \<open>ready_state\<close> is the state in which the \<^verbatim>\<open>try\<close>
  statement then starts (lemma \<open>run_ready\<close> below), \<open>after_try\<close> the state in
  which it is left, and \<open>finish_events\<close> the calls that follow the pause.
\<close>

definition reaches_ready :: "world \<Rightarrow> bool" where
  "reaches_ready w =
     (playwright_start_exn w = None \<and> launch_exn w = None \<and> new_page_exn w = None \<and>
      goto_exn w target_url = None \<and>
      visible_within 10000 (selector_visible_after w readiness_marker))"

definition ready_trace :: "event list" where
  "ready_trace = [Enter_sync_playwright, Launch True, New_page, Goto target_url,
     Wait_for_selector readiness_marker 10000]"

definition ready_state :: "world \<Rightarrow> (string \<rightharpoonup> screenshot) \<Rightarrow> state" where
  "ready_state w fs = \<lparr>trace = ready_trace, stdout = [], files = fs, page_doc = doc w\<rparr>"

definition after_try :: "world \<Rightarrow> (string \<rightharpoonup> screenshot) \<Rightarrow> state" where
  "after_try w fs = snd (try_except (try_block w) except_block (ready_state w fs))"

definition clicked_trace :: "nat \<Rightarrow> event list" where
  "clicked_trace i = ready_trace @
     [Wait_for event_label 5000, Click event_label, Clicked i, Wait_for popover_img 2000]"

definition finish_events :: "world \<Rightarrow> event list" where
  "finish_events w =
     (case pause_exn w of
        Some e \<Rightarrow> [Exit_sync_playwright]
      | None \<Rightarrow>
         (case screenshot_exn w of
            Some e \<Rightarrow> [Screenshot screenshot_path False, Exit_sync_playwright]
          | None \<Rightarrow> [Screenshot screenshot_path False, Close, Exit_sync_playwright]))"

text \<open>The calls and effects of the \<^verbatim>\<open>try\<close> body, the screenshot call, the two
  waits for a condition, and the fixed pause.\<close>

fun interaction_step :: "event \<Rightarrow> bool" where
  "interaction_step (Wait_for l ms) = True"
| "interaction_step (Click l) = True"
| "interaction_step (Clicked i) = True"
| "interaction_step (Get_attribute l a) = True"
| "interaction_step ev = False"

fun is_screenshot :: "event \<Rightarrow> bool" where
  "is_screenshot (Screenshot p f) = True"
| "is_screenshot ev = False"

fun is_wait :: "event \<Rightarrow> bool" where
  "is_wait (Wait_for_selector sel ms) = True"
| "is_wait (Wait_for l ms) = True"
| "is_wait ev = False"

fun is_pause :: "event \<Rightarrow> bool" where
  "is_pause (Wait_for_timeout ms) = True"
| "is_pause ev = False"

subsection \<open>Example worlds\<close>

text \<open>
  Concrete worlds on which the statements are evaluated. \<open>happy_world\<close> is the
  application behaving as expected: the heading shows after 1.2 seconds, the page
  has one label with the target text, and the click opens a popover image whose
  \<^verbatim>\<open>src\<close> is \<^verbatim>\<open>/images/sangiran.jpg\<close>. The others change one thing each.
\<close>

definition heading_el :: element where
  "heading_el = \<lparr>el_text = ''Nusantara Timeline'', el_css = [], el_visible_after = Some 0,
     el_click_exn = None, el_attrs = []\<rparr>"

definition label_el :: element where
  "label_el = \<lparr>el_text = ''The Sangiran Flourishing'', el_css = [], el_visible_after = Some 0,
     el_click_exn = None, el_attrs = []\<rparr>"

definition img_el :: element where
  "img_el = \<lparr>el_text = [], el_css = [''div.absolute.z-50 img''], el_visible_after = Some 300,
     el_click_exn = None, el_attrs = [(''alt'', ''Sangiran''), (''src'', ''/images/sangiran.jpg'')]\<rparr>"

text \<open>
  After the label, a chart annotation whose text contains the target text in
  lower case and goes on.
\<close>

definition caption_el :: element where
  "caption_el = \<lparr>el_text = ''the sangiran flourishing (chart annotation)'', el_css = [],
     el_visible_after = Some 0, el_click_exn = None, el_attrs = []\<rparr>"

definition happy_world :: world where
  "happy_world = \<lparr>playwright_start_exn = None, launch_exn = None, new_page_exn = None,
     goto_exn = (\<lambda>url. None),
     selector_visible_after = (\<lambda>sel. if sel = ''text=Nusantara Timeline'' then Some 1200 else None),
     doc = [heading_el, label_el],
     doc_after_click = (\<lambda>i. [heading_el, label_el, img_el]),
     pause_exn = None, screenshot_exn = None, close_exn = None\<rparr>"

text \<open>No element carries the target text.\<close>

definition absent_world :: world where
  "absent_world = happy_world\<lparr>doc := [heading_el]\<rparr>"

text \<open>The readiness marker shows one millisecond after the limit.\<close>

definition late_world :: world where
  "late_world = happy_world\<lparr>selector_visible_after :=
     (\<lambda>sel. if sel = ''text=Nusantara Timeline'' then Some 10001 else None)\<rparr>"

text \<open>The development server is down: navigation fails.\<close>

definition refused_world :: world where
  "refused_world = happy_world\<lparr>goto_exn := (\<lambda>url. Some (Error ''net::ERR_CONNECTION_REFUSED''))\<rparr>"

definition caption_world :: world where
  "caption_world = happy_world\<lparr>doc := [heading_el, label_el, caption_el],
     doc_after_click := (\<lambda>i. [heading_el, label_el, caption_el])\<rparr>"

text \<open>The popover image has no \<^verbatim>\<open>src\<close> attribute.\<close>

definition no_src_world :: world where
  "no_src_world = happy_world\<lparr>doc_after_click :=
     (\<lambda>i. [heading_el, label_el, img_el\<lparr>el_attrs := [(''alt'', ''Sangiran'')]\<rparr>])\<rparr>"

text \<open>The click opens no popover.\<close>

definition no_popover_world :: world where
  "no_popover_world = happy_world\<lparr>doc_after_click := (\<lambda>i. [heading_el, label_el])\<rparr>"

text \<open>The click opens an overlay with two images.\<close>

definition two_images_world :: world where
  "two_images_world = happy_world\<lparr>doc_after_click := (\<lambda>i. [heading_el, label_el, img_el, img_el])\<rparr>"

section \<open>Symbolic execution of the script\<close>

text \<open>
  The lemmas of this section run the script symbolically: first the calls before
  the \<^verbatim>\<open>try\<close> statement, then the body of the \<^verbatim>\<open>try\<close> statement for each way
  it can end, then the three calls after it.
\<close>

lemma run_not_ready:
  assumes "\<not> reaches_ready w"
  shows "\<exists>e. fst (run w fs) = Inl e"
    and "files (snd (run w fs)) = fs"
    and "stdout (snd (run w fs)) = []"
    and "set (trace (snd (run w fs))) \<subseteq> insert Exit_sync_playwright (set ready_trace)"
  using assms
  by (auto simp: reaches_ready_def run_def test_timeline_images_def with_sync_playwright_def
      call_def seq_def log_def initial_def chromium_launch_def browser_new_page_def page_goto_def
      page_wait_for_selector_def ready_trace_def
      split: option.splits if_splits)

lemma run_ready:
  assumes "reaches_ready w"
  shows "run w fs =
    (case seq (try_except (try_block w) except_block) (\<lambda>_.
          seq (page_wait_for_timeout w 1000) (\<lambda>_.
          seq (page_screenshot w screenshot_path default_full_page) (\<lambda>_.
          browser_close w))) (ready_state w fs)
     of (r, s) \<Rightarrow> (r, log Exit_sync_playwright s))"
  using assms
  by (simp add: reaches_ready_def run_def test_timeline_images_def with_sync_playwright_def
      call_def seq_def log_def initial_def chromium_launch_def browser_new_page_def page_goto_def
      page_wait_for_selector_def ready_trace_def ready_state_def)

lemmas op_defs = seq_def locator_wait_for_def locator_click_def locator_get_attribute_def
  py_print_def log_def

lemma try_block_files: "files (snd (try_block w s)) = files s"
  by (auto simp: try_block_def op_defs split: list.splits option.splits if_splits)

lemma try_block_trace:
  "\<exists>evs. trace (snd (try_block w s)) = trace s @ evs \<and> list_all interaction_step evs"
  by (auto simp: try_block_def op_defs split: list.splits option.splits if_splits)

lemma try_block_stdout_raised:
  "fst (try_block w s) = Inl e \<Longrightarrow> stdout (snd (try_block w s)) = stdout s"
  by (auto simp: try_block_def op_defs split: list.splits option.splits if_splits)

lemma try_statement_raised:
  assumes "fst (try_block w s) = Inl e"
  shows "try_except (try_block w) except_block s =
    (Inr (), (snd (try_block w s))\<lparr>stdout := stdout s @ [''Error: '' @ exn_str e]\<rparr>)"
  using assms try_block_stdout_raised[OF assms]
  by (cases "try_block w s") (simp add: try_except_def except_block_def py_print_def)

lemma try_statement_returned:
  assumes "fst (try_block w s) = Inr u"
  shows "try_except (try_block w) except_block s = try_block w s"
  using assms by (cases "try_block w s") (simp add: try_except_def)

lemma try_statement_returns: "fst (try_except (try_block w) except_block s) = Inr ()"
  by (cases "try_block w s"; cases "fst (try_block w s)")
     (auto simp: try_except_def except_block_def py_print_def)

lemma after_try_files: "files (after_try w fs) = fs"
proof (cases "fst (try_block w (ready_state w fs))")
  case (Inl e)
  then show ?thesis
    using try_block_files[of w "ready_state w fs"]
    by (simp add: after_try_def try_statement_raised ready_state_def)
next
  case (Inr u)
  then show ?thesis
    using try_block_files[of w "ready_state w fs"]
    by (simp add: after_try_def try_statement_returned ready_state_def)
qed

lemma after_try_trace:
  "\<exists>evs. trace (after_try w fs) = ready_trace @ evs \<and> list_all interaction_step evs"
proof (cases "fst (try_block w (ready_state w fs))")
  case (Inl e)
  then show ?thesis
    using try_block_trace[of w "ready_state w fs"]
    by (simp add: after_try_def try_statement_raised ready_state_def)
next
  case (Inr u)
  then show ?thesis
    using try_block_trace[of w "ready_state w fs"]
    by (simp add: after_try_def try_statement_returned ready_state_def)
qed

lemma after_try_raised:
  "fst (try_block w (ready_state w fs)) = Inl e \<Longrightarrow>
   after_try w fs = (snd (try_block w (ready_state w fs)))\<lparr>stdout := [''Error: '' @ exn_str e]\<rparr>"
  by (simp add: after_try_def try_statement_raised ready_state_def)

lemma after_try_returned:
  "fst (try_block w (ready_state w fs)) = Inr u \<Longrightarrow>
   after_try w fs = snd (try_block w (ready_state w fs))"
  by (simp add: after_try_def try_statement_returned)

lemmas finish_defs = seq_def page_wait_for_timeout_def page_screenshot_def browser_close_def
  call_def log_def default_full_page_def

lemma run_pause_raises:
  assumes "reaches_ready w" and "pause_exn w = Some e"
  shows "run w fs = (Inl e, (after_try w fs)
           \<lparr>trace := trace (after_try w fs) @ [Wait_for_timeout 1000, Exit_sync_playwright]\<rparr>)"
  using assms(2) try_statement_returns[of w "ready_state w fs"]
  by (cases "try_except (try_block w) except_block (ready_state w fs)")
     (simp add: run_ready[OF assms(1)] after_try_def finish_defs)

lemma run_screenshot_raises:
  assumes "reaches_ready w" and "pause_exn w = None" and "screenshot_exn w = Some e"
  shows "run w fs = (Inl e, (after_try w fs)
           \<lparr>trace := trace (after_try w fs) @
              [Wait_for_timeout 1000, Screenshot screenshot_path False, Exit_sync_playwright]\<rparr>)"
  using assms(2,3) try_statement_returns[of w "ready_state w fs"]
  by (cases "try_except (try_block w) except_block (ready_state w fs)")
     (simp add: run_ready[OF assms(1)] after_try_def finish_defs)

lemma run_captures:
  assumes "reaches_ready w" and "pause_exn w = None" and "screenshot_exn w = None"
  shows "run w fs =
    ((case close_exn w of None \<Rightarrow> Inr () | Some e \<Rightarrow> Inl e),
     (after_try w fs)
       \<lparr>trace := trace (after_try w fs) @
          [Wait_for_timeout 1000, Screenshot screenshot_path False, Close, Exit_sync_playwright],
        files := fs(screenshot_path \<mapsto>
          \<lparr>shot_full_page = False, shot_doc = page_doc (after_try w fs)\<rparr>)\<rparr>)"
  using assms(2,3) try_statement_returns[of w "ready_state w fs"] after_try_files[of w fs]
  by (cases "try_except (try_block w) except_block (ready_state w fs)")
     (auto simp add: run_ready[OF assms(1)] after_try_def finish_defs split: option.splits)

lemmas try_defs = try_block_def seq_def locator_wait_for_def locator_click_def
  locator_get_attribute_def py_print_def log_def ready_state_def

lemma label_absent_raises:
  assumes "resolve (doc w) event_label = []"
  shows "try_block w (ready_state w fs) =
    (Inl (timeout_exceeded 5000),
     (ready_state w fs)\<lparr>trace := ready_trace @ [Wait_for event_label 5000]\<rparr>)"
  using assms by (simp add: try_defs)

lemma label_hidden_raises:
  assumes "resolve (doc w) event_label = [i]"
    and "\<not> visible_within 5000 (el_visible_after (doc w ! i))"
  shows "try_block w (ready_state w fs) =
    (Inl (timeout_exceeded 5000),
     (ready_state w fs)\<lparr>trace := ready_trace @ [Wait_for event_label 5000]\<rparr>)"
  using assms by (simp add: try_defs)

lemma click_fails_raises:
  assumes "resolve (doc w) event_label = [i]"
    and "visible_within 5000 (el_visible_after (doc w ! i))"
    and "el_click_exn (doc w ! i) = Some e"
  shows "try_block w (ready_state w fs) =
    (Inl e,
     (ready_state w fs)\<lparr>trace := ready_trace @ [Wait_for event_label 5000, Click event_label]\<rparr>)"
  using assms by (simp add: try_defs)

lemma popover_absent_raises:
  assumes "resolve (doc w) event_label = [i]"
    and "visible_within 5000 (el_visible_after (doc w ! i))"
    and "el_click_exn (doc w ! i) = None"
    and "resolve (doc_after_click w i) popover_img = []"
  shows "try_block w (ready_state w fs) =
    (Inl (timeout_exceeded 2000),
     (ready_state w fs)\<lparr>trace := clicked_trace i, page_doc := doc_after_click w i\<rparr>)"
  using assms by (simp add: try_defs clicked_trace_def)

lemma popover_hidden_raises:
  assumes "resolve (doc w) event_label = [i]"
    and "visible_within 5000 (el_visible_after (doc w ! i))"
    and "el_click_exn (doc w ! i) = None"
    and "resolve (doc_after_click w i) popover_img = [j]"
    and "\<not> visible_within 2000 (el_visible_after (doc_after_click w i ! j))"
  shows "try_block w (ready_state w fs) =
    (Inl (timeout_exceeded 2000),
     (ready_state w fs)\<lparr>trace := clicked_trace i, page_doc := doc_after_click w i\<rparr>)"
  using assms by (simp add: try_defs clicked_trace_def)

lemma popover_ambiguous_raises:
  assumes "resolve (doc w) event_label = [i]"
    and "visible_within 5000 (el_visible_after (doc w ! i))"
    and "el_click_exn (doc w ! i) = None"
    and "1 < length (resolve (doc_after_click w i) popover_img)"
  shows "try_block w (ready_state w fs) =
    (Inl (strict_mode_violation (length (resolve (doc_after_click w i) popover_img))),
     (ready_state w fs)\<lparr>trace := clicked_trace i, page_doc := doc_after_click w i\<rparr>)"
  using assms by (auto simp add: try_defs clicked_trace_def split: list.splits)

lemma interaction_returns:
  assumes "resolve (doc w) event_label = [i]"
    and "visible_within 5000 (el_visible_after (doc w ! i))"
    and "el_click_exn (doc w ! i) = None"
    and "resolve (doc_after_click w i) popover_img = [j]"
    and "visible_within 2000 (el_visible_after (doc_after_click w i ! j))"
  shows "try_block w (ready_state w fs) =
    (Inr (),
     (ready_state w fs)\<lparr>trace := clicked_trace i @ [Get_attribute popover_img ''src''],
        stdout := [''Image src: '' @ py_format (map_of (el_attrs (doc_after_click w i ! j)) ''src'')],
        page_doc := doc_after_click w i\<rparr>)"
  using assms by (simp add: try_defs clicked_trace_def)

lemmas world_defs = happy_world_def heading_el_def label_el_def img_el_def

lemmas const_defs = target_url_def readiness_marker_def target_text_def overlay_query_def
  screenshot_path_def event_label_def popover_img_def page_get_by_text_def page_locator_def
  locator_last_def default_exact_def

lemmas match_defs = text_matches_def lower_char_def visible_within_def

lemmas prelude_defs = run_def test_timeline_images_def with_sync_playwright_def
  call_def seq_def log_def initial_def chromium_launch_def browser_new_page_def page_goto_def
  page_wait_for_selector_def ready_trace_def

lemma after_try_trace_eq:
  "trace (after_try w fs) = trace (snd (try_block w (ready_state w fs)))"
  by (cases "fst (try_block w (ready_state w fs))")
     (simp_all add: after_try_raised after_try_returned)

lemma after_try_page_doc:
  "page_doc (after_try w fs) = page_doc (snd (try_block w (ready_state w fs)))"
  by (cases "fst (try_block w (ready_state w fs))")
     (simp_all add: after_try_raised after_try_returned)

lemma run_ready_trace:
  assumes "reaches_ready w"
  shows "trace (snd (run w fs)) =
    trace (after_try w fs) @ [Wait_for_timeout 1000] @ finish_events w"
proof (cases "pause_exn w")
  case (Some e)
  then show ?thesis
    by (simp add: run_pause_raises[OF assms] finish_events_def)
next
  case None
  then show ?thesis
    by (cases "screenshot_exn w")
       (simp_all add: run_captures[OF assms] run_screenshot_raises[OF assms] finish_events_def)
qed

lemma run_ready_stdout:
  assumes "reaches_ready w"
  shows "stdout (snd (run w fs)) = stdout (after_try w fs)"
proof (cases "pause_exn w")
  case (Some e)
  then show ?thesis
    by (simp add: run_pause_raises[OF assms])
next
  case None
  then show ?thesis
    by (cases "screenshot_exn w")
       (simp_all add: run_captures[OF assms] run_screenshot_raises[OF assms])
qed

lemma no_screenshot_in_try:
  "filter is_screenshot (trace (after_try w fs)) = []"
proof -
  obtain evs where e: "trace (after_try w fs) = ready_trace @ evs"
    and i: "list_all interaction_step evs"
    using after_try_trace by blast
  have "\<And>ev. interaction_step ev \<Longrightarrow> \<not> is_screenshot ev"
    by (case_tac ev) simp_all
  with i have "filter is_screenshot evs = []"
    by (auto simp: filter_empty_conv list_all_iff)
  with e show ?thesis by (simp add: ready_trace_def)
qed

lemma no_pause_in_try:
  "filter is_pause (trace (after_try w fs)) = []"
proof -
  obtain evs where e: "trace (after_try w fs) = ready_trace @ evs"
    and i: "list_all interaction_step evs"
    using after_try_trace by blast
  have "\<And>ev. interaction_step ev \<Longrightarrow> \<not> is_pause ev"
    by (case_tac ev) simp_all
  with i have "filter is_pause evs = []"
    by (auto simp: filter_empty_conv list_all_iff)
  with e show ?thesis by (simp add: ready_trace_def)
qed

lemma no_close_in_try:
  shows "count_list (trace (after_try w fs)) Close = 0"
    and "count_list (trace (after_try w fs)) Exit_sync_playwright = 0"
proof -
  obtain evs where e: "trace (after_try w fs) = ready_trace @ evs"
    and i: "list_all interaction_step evs"
    using after_try_trace by blast
  from i have "Close \<notin> set evs" "Exit_sync_playwright \<notin> set evs"
    by (auto simp: list_all_iff)
  with e show "count_list (trace (after_try w fs)) Close = 0"
    and "count_list (trace (after_try w fs)) Exit_sync_playwright = 0"
    by (simp_all add: ready_trace_def count_list_0_iff)
qed

lemma absent_reaches_ready: "reaches_ready absent_world"
  by (simp add: reaches_ready_def absent_world_def world_defs const_defs match_defs)

lemma happy_ready: "reaches_ready happy_world"
  by (simp add: reaches_ready_def world_defs const_defs match_defs)

lemma happy_label: "resolve [heading_el, label_el] event_label = [1]"
  by (simp add: world_defs const_defs match_defs)

lemma happy_popover: "resolve [heading_el, label_el, img_el] popover_img = [2]"
  by (simp add: world_defs const_defs)

lemma two_images_popover: "resolve [heading_el, label_el, img_el, img_el] popover_img = [2, 3]"
  by (simp add: world_defs const_defs)

lemma try_block_waits:
  "\<exists>rest. [Wait_for event_label 5000, Wait_for popover_img 2000] =
     filter is_wait (drop 5 (trace (snd (try_block w (ready_state w fs))))) @ rest"
  by (auto simp: try_defs ready_trace_def split: list.splits option.splits)

lemma wait_gates_in_try:
  shows "Click event_label \<in> set (trace (snd (try_block w (ready_state w fs)))) \<Longrightarrow>
      \<exists>i. resolve (doc w) event_label = [i] \<and>
          visible_within 5000 (el_visible_after (doc w ! i))"
    and "Get_attribute popover_img ''src'' \<in> set (trace (snd (try_block w (ready_state w fs)))) \<Longrightarrow>
      \<exists>i j. resolve (doc w) event_label = [i] \<and>
          resolve (doc_after_click w i) popover_img = [j] \<and>
          visible_within 2000 (el_visible_after (doc_after_click w i ! j))"
  by (auto simp: try_defs ready_trace_def split: list.splits option.splits if_splits)

lemma in_run_in_try:
  assumes "ev \<in> set (trace (snd (run w fs)))" and "interaction_step ev"
  shows "reaches_ready w \<and> ev \<in> set (trace (snd (try_block w (ready_state w fs))))"
proof (cases "reaches_ready w")
  case True
  have "ev \<notin> set (finish_events w)"
    using assms(2) by (auto simp: finish_events_def split: option.splits)
  then show ?thesis
    using assms True by (auto simp: run_ready_trace[OF True] after_try_trace_eq)
next
  case False
  then show ?thesis
    using assms run_not_ready(4)[OF False, of fs] by (auto simp: ready_trace_def)
qed

lemma close_call_count:
  "count_list (trace (snd (run w fs))) Close =
     (if reaches_ready w \<and> pause_exn w = None \<and> screenshot_exn w = None then 1 else 0) \<and>
   (fst (run w fs) = Inr () \<longrightarrow> count_list (trace (snd (run w fs))) Close = 1) \<and>
   count_list (trace (snd (run w fs))) Exit_sync_playwright =
     (if playwright_start_exn w = None then 1 else 0)"
proof (cases "reaches_ready w")
  case True
  have s: "playwright_start_exn w = None"
    using True by (simp add: reaches_ready_def)
  show ?thesis
  proof (cases "pause_exn w")
    case (Some e)
    then show ?thesis
      using True s
      by (simp add: run_pause_raises[OF True] no_close_in_try)
  next
    case None
    then show ?thesis
      using True s
      by (cases "screenshot_exn w")
         (simp_all add: run_captures[OF True] run_screenshot_raises[OF True] no_close_in_try)
  qed
next
  case False
  then show ?thesis
    by (auto simp: reaches_ready_def prelude_defs split: option.splits if_splits)
qed

lemma starts_with_refl: "starts_with xs xs"
  by (induction xs) simp_all

lemma contains_refl: "contains xs xs"
  by (cases xs) (simp_all add: starts_with_refl)

lemma exact_match_is_match: "text_matches True t h \<Longrightarrow> text_matches False t h"
  by (simp add: text_matches_def contains_refl)

lemma sorted_le_last: "sorted xs \<Longrightarrow> (x::nat) \<in> set xs \<Longrightarrow> x \<le> last xs"
  by (induction xs) auto

lemma clicked_in_try:
  assumes "Clicked i \<in> set (trace (snd (try_block w (ready_state w fs))))"
  shows "resolve (doc w) event_label = [i]"
  using assms
  by (auto simp: try_defs ready_trace_def split: list.splits option.splits if_splits)

lemma clicked_in_run:
  assumes "reaches_ready w" and "Clicked i \<in> set (trace (snd (run w fs)))"
  shows "resolve (doc w) event_label = [i]"
proof -
  have "Clicked i \<notin> set (finish_events w)"
    by (simp add: finish_events_def split: option.splits)
  with assms(2) have "Clicked i \<in> set (trace (snd (try_block w (ready_state w fs))))"
    by (simp add: run_ready_trace[OF assms(1)] after_try_trace_eq)
  then show ?thesis by (rule clicked_in_try)
qed

lemma click_goes_through:
  assumes "reaches_ready w" and "resolve (doc w) event_label = [i]"
    and "visible_within 5000 (el_visible_after (doc w ! i))"
    and "el_click_exn (doc w ! i) = None"
  shows "Clicked i \<in> set (trace (snd (run w fs)))"
proof -
  have "Clicked i \<in> set (trace (snd (try_block w (ready_state w fs))))"
    using assms(2-4)
    by (auto simp: try_defs split: list.splits option.splits if_splits)
  then show ?thesis
    by (simp add: run_ready_trace[OF assms(1)] after_try_trace_eq)
qed

lemma label_wait_in_run:
  assumes "reaches_ready w"
  shows "Wait_for event_label 5000 \<in> set (trace (snd (run w fs)))"
proof -
  have "Wait_for event_label 5000 \<in> set (trace (snd (try_block w (ready_state w fs))))"
    by (auto simp: try_defs split: list.splits option.splits if_splits)
  then show ?thesis
    by (simp add: run_ready_trace[OF assms(1)] after_try_trace_eq)
qed

lemma interaction_keeps_browser:
  "list_all interaction_step evs \<Longrightarrow> foldl (browser_step w) b evs = b"
proof (induction evs arbitrary: b)
  case Nil
  then show ?case by simp
next
  case (Cons ev evs)
  then have "browser_step w b ev = b"
    by (cases ev) simp_all
  with Cons show ?case by simp
qed

lemma browser_after_ready:
  assumes "reaches_ready w"
  shows "browser_after w (trace (snd (run w fs))) =
    foldl (browser_step w) \<lparr>session_open = True, session_ends = 0\<rparr> (finish_events w)"
proof -
  obtain evs where e: "trace (after_try w fs) = ready_trace @ evs"
    and i: "list_all interaction_step evs"
    using after_try_trace by blast
  have l: "launch_exn w = None"
    using assms by (simp add: reaches_ready_def)
  have "foldl (browser_step w) \<lparr>session_open = False, session_ends = 0\<rparr> ready_trace =
      \<lparr>session_open = True, session_ends = 0\<rparr>"
    by (simp add: ready_trace_def l)
  then show ?thesis
    by (simp add: browser_after_def run_ready_trace[OF assms] e interaction_keeps_browser[OF i])
qed

section \<open>The claims\<close>

text \<open>
  \<^bold>\<open>Claim C1\<close> (capture survives a failed interaction). In every run that reaches
  readiness and whose \<^verbatim>\<open>try\<close> body raises some exception \<open>e\<close> (the label is
  absent or stays hidden, the click fails, the popover image does not show), the
  \<^verbatim>\<open>try\<close> statement itself returns, so \<open>e\<close> is not propagated; the handler
  prints the error line; and, the pause, the screenshot and the close themselves
  returning, the screenshot file is written and the process exits with status 0.
\<close>

theorem interaction_failure_keeps_capture:
  assumes "reaches_ready w"
    and "fst (try_block w (ready_state w fs)) = Inl e"
    and "pause_exn w = None" and "screenshot_exn w = None" and "close_exn w = None"
  shows "fst (run w fs) = Inr () \<and> exit_status w fs = 0 \<and>
    fst (try_except (try_block w) except_block (ready_state w fs)) = Inr () \<and>
    stdout (snd (run w fs)) = [''Error: '' @ exn_str e] \<and>
    files (snd (run w fs)) screenshot_path =
      Some \<lparr>shot_full_page = False, shot_doc = page_doc (snd (try_block w (ready_state w fs)))\<rparr>"
  using assms
  by (simp add: run_captures exit_status_def try_statement_returns after_try_raised)

theorem interaction_failure_keeps_capture_witness:
  "reaches_ready absent_world \<and>
   resolve (doc absent_world) event_label = [] \<and>
   fst (try_block absent_world (ready_state absent_world Map.empty)) = Inl (timeout_exceeded 5000) \<and>
   fst (run absent_world Map.empty) = Inr () \<and>
   exit_status absent_world Map.empty = 0 \<and>
   stdout (snd (run absent_world Map.empty)) = [''Error: '' @ exn_str (timeout_exceeded 5000)] \<and>
   files (snd (run absent_world Map.empty)) screenshot_path =
     Some \<lparr>shot_full_page = False, shot_doc = [heading_el]\<rparr>"
proof -
  have r: "reaches_ready absent_world"
    by (simp add: reaches_ready_def absent_world_def world_defs const_defs match_defs)
  have a: "resolve (doc absent_world) event_label = []"
    by (simp add: absent_world_def world_defs const_defs match_defs)
  have t: "fst (try_block absent_world (ready_state absent_world Map.empty)) =
      Inl (timeout_exceeded 5000)"
    by (simp add: label_absent_raises[OF a])
  have p: "pause_exn absent_world = None" "screenshot_exn absent_world = None"
      "close_exn absent_world = None"
    by (simp_all add: absent_world_def world_defs)
  have d: "page_doc (snd (try_block absent_world (ready_state absent_world Map.empty))) =
      [heading_el]"
    unfolding label_absent_raises[OF a]
    by (simp add: ready_state_def absent_world_def happy_world_def)
  show ?thesis
    using interaction_failure_keeps_capture[OF r t p] r a t d by simp
qed

text \<open>
  \<^bold>\<open>Claim C2\<close> (readiness gate). In every run in which the marker
  \<^verbatim>\<open>text=Nusantara Timeline\<close> is not visible within 10000 ms, an exception reaches
  the top level (exit status 1), no step of the interaction is executed, no
  screenshot call is issued and the files on disk are what they were. When the
  calls before the wait return, the exception is the timeout of the readiness
  wait and the run consists of the five calls up to that wait and the exit of the
  Playwright context.
\<close>

theorem readiness_timeout_is_fatal:
  assumes "\<not> visible_within 10000 (selector_visible_after w readiness_marker)"
  shows "(\<exists>e. fst (run w fs) = Inl e) \<and> exit_status w fs = 1 \<and>
    filter interaction_step (trace (snd (run w fs))) = [] \<and>
    filter is_screenshot (trace (snd (run w fs))) = [] \<and>
    files (snd (run w fs)) = fs \<and>
    (playwright_start_exn w = None \<and> launch_exn w = None \<and> new_page_exn w = None \<and>
     goto_exn w target_url = None \<longrightarrow>
       run w fs = (Inl (timeout_exceeded 10000),
         (initial fs)\<lparr>trace := ready_trace @ [Exit_sync_playwright], page_doc := doc w\<rparr>))"
  using assms
  by (auto simp: prelude_defs exit_status_def split: option.splits)

theorem readiness_timeout_is_fatal_witness:
  "\<not> visible_within 10000 (selector_visible_after late_world readiness_marker) \<and>
   fst (run late_world Map.empty) = Inl (timeout_exceeded 10000) \<and>
   exit_status late_world Map.empty = 1 \<and>
   trace (snd (run late_world Map.empty)) = ready_trace @ [Exit_sync_playwright] \<and>
   filter interaction_step (trace (snd (run late_world Map.empty))) = [] \<and>
   filter is_screenshot (trace (snd (run late_world Map.empty))) = [] \<and>
   files (snd (run late_world Map.empty)) = Map.empty"
proof -
  have h: "\<not> visible_within 10000 (selector_visible_after late_world readiness_marker)"
    by (simp add: late_world_def world_defs const_defs match_defs)
  have p: "playwright_start_exn late_world = None \<and> launch_exn late_world = None \<and>
      new_page_exn late_world = None \<and> goto_exn late_world target_url = None"
    by (simp add: late_world_def world_defs)
  show ?thesis
    using readiness_timeout_is_fatal[OF h, of Map.empty] h p
    by (simp add: ready_trace_def initial_def)
qed

text \<open>
  \<^bold>\<open>Claim C3\<close> (teardown). In every run in which the browser was launched, the
  browser session is ended exactly once and is not open when the run is over:
  never left open, never ended twice. This holds on the success path, after a
  recovered interaction failure, and after a fatal failure (navigation refused,
  readiness wait timed out); a run whose launch fails has no session and ends
  none. The calls behind it: \<^verbatim>\<open>browser.close()\<close> is called once when the run
  reaches readiness and the pause and the screenshot return, and not at all
  otherwise, and the \<^verbatim>\<open>sync_playwright()\<close> context is left exactly once in every
  run that entered it; so on a fatal path, where \<^verbatim>\<open>browser.close()\<close> is skipped, it
  is the exit of the context that ends the session.
\<close>

theorem session_closed_exactly_once:
  "session_ends (browser_after w (trace (snd (run w fs)))) =
     (if playwright_start_exn w = None \<and> launch_exn w = None then 1 else 0) \<and>
   \<not> session_open (browser_after w (trace (snd (run w fs)))) \<and>
   count_list (trace (snd (run w fs))) Close =
     (if reaches_ready w \<and> pause_exn w = None \<and> screenshot_exn w = None then 1 else 0) \<and>
   count_list (trace (snd (run w fs))) Exit_sync_playwright =
     (if playwright_start_exn w = None then 1 else 0)"
proof -
  have s: "session_ends (browser_after w (trace (snd (run w fs)))) =
     (if playwright_start_exn w = None \<and> launch_exn w = None then 1 else 0) \<and>
   \<not> session_open (browser_after w (trace (snd (run w fs))))"
  proof (cases "reaches_ready w")
    case True
    then have "playwright_start_exn w = None \<and> launch_exn w = None"
      by (simp add: reaches_ready_def)
    then show ?thesis
      by (auto simp: browser_after_ready[OF True] finish_events_def split: option.splits)
  next
    case False
    then show ?thesis
      by (auto simp: reaches_ready_def prelude_defs browser_after_def
          split: option.splits if_splits)
  qed
  show ?thesis
    using s close_call_count[of w fs] by blast
qed

theorem session_closed_exactly_once_witness:
  "session_ends (browser_after happy_world (trace (snd (run happy_world Map.empty)))) = 1 \<and>
   \<not> session_open (browser_after happy_world (trace (snd (run happy_world Map.empty)))) \<and>
   session_ends (browser_after absent_world (trace (snd (run absent_world Map.empty)))) = 1 \<and>
   \<not> session_open (browser_after absent_world (trace (snd (run absent_world Map.empty)))) \<and>
   session_ends (browser_after refused_world (trace (snd (run refused_world Map.empty)))) = 1 \<and>
   \<not> session_open (browser_after refused_world (trace (snd (run refused_world Map.empty)))) \<and>
   session_ends (browser_after late_world (trace (snd (run late_world Map.empty)))) = 1 \<and>
   \<not> session_open (browser_after late_world (trace (snd (run late_world Map.empty)))) \<and>
   fst (run happy_world Map.empty) = Inr () \<and>
   fst (run absent_world Map.empty) = Inr () \<and>
   fst (run refused_world Map.empty) = Inl (Error ''net::ERR_CONNECTION_REFUSED'') \<and>
   fst (run late_world Map.empty) = Inl (timeout_exceeded 10000) \<and>
   count_list (trace (snd (run refused_world Map.empty))) Close = 0"
proof -
  have h: "playwright_start_exn happy_world = None \<and> launch_exn happy_world = None"
    "playwright_start_exn absent_world = None \<and> launch_exn absent_world = None"
    "playwright_start_exn refused_world = None \<and> launch_exn refused_world = None"
    "playwright_start_exn late_world = None \<and> launch_exn late_world = None"
    by (simp_all add: happy_world_def absent_world_def refused_world_def late_world_def)
  have o: "pause_exn happy_world = None" "screenshot_exn happy_world = None"
    "close_exn happy_world = None"
    "pause_exn absent_world = None" "screenshot_exn absent_world = None"
    "close_exn absent_world = None"
    by (simp_all add: happy_world_def absent_world_def)
  have f: "fst (run happy_world Map.empty) = Inr ()" "fst (run absent_world Map.empty) = Inr ()"
    by (simp_all add: run_captures[OF happy_ready o(1,2)] o(3)
        run_captures[OF absent_reaches_ready o(4,5)] o(6))
  have g: "fst (run refused_world Map.empty) = Inl (Error ''net::ERR_CONNECTION_REFUSED'')"
    "count_list (trace (snd (run refused_world Map.empty))) Close = 0"
    by (simp_all add: refused_world_def happy_world_def prelude_defs target_url_def)
  have k: "fst (run late_world Map.empty) = Inl (timeout_exceeded 10000)"
    by (simp add: late_world_def happy_world_def prelude_defs target_url_def
        readiness_marker_def visible_within_def)
  show ?thesis
    using session_closed_exactly_once[of happy_world Map.empty]
      session_closed_exactly_once[of absent_world Map.empty]
      session_closed_exactly_once[of refused_world Map.empty]
      session_closed_exactly_once[of late_world Map.empty]
      h f g k
    by simp
qed

text \<open>
  \<^bold>\<open>Claim C4\<close> (tie-break), as amended. The script calls \<^verbatim>\<open>get_by_text\<close> without
  \<^verbatim>\<open>exact=True\<close>, so an element matches when its text contains the target text,
  letter case ignored. On every page with at least one match, in a run that
  reaches readiness, the label locator resolves to the last match in document
  order: that element is the one waited for, every click that goes through goes
  to it, and it is clicked whenever it is visible in time and the click does not
  fail. The elements with exactly the target text are among the matches, and
  when no other element matches, the matches are exactly those elements.
\<close>

theorem label_is_last_text_match:
  assumes "reaches_ready w"
    and "resolve (doc w) (page_get_by_text target_text default_exact) = ms"
    and "ms \<noteq> []"
  shows "page_get_by_text target_text default_exact = GetByText target_text False \<and>
    resolve (doc w) event_label = [last ms] \<and>
    (\<forall>m \<in> set ms. m \<le> last ms) \<and>
    Wait_for event_label 5000 \<in> set (trace (snd (run w fs))) \<and>
    (\<forall>i. Clicked i \<in> set (trace (snd (run w fs))) \<longrightarrow> i = last ms) \<and>
    (visible_within 5000 (el_visible_after (doc w ! last ms)) \<and>
     el_click_exn (doc w ! last ms) = None \<longrightarrow>
       Clicked (last ms) \<in> set (trace (snd (run w fs)))) \<and>
    set (resolve (doc w) (GetByText target_text True)) \<subseteq> set ms \<and>
    (set ms \<subseteq> set (resolve (doc w) (GetByText target_text True)) \<longrightarrow>
       resolve (doc w) (GetByText target_text True) = ms)"
proof -
  have g: "page_get_by_text target_text default_exact = GetByText target_text False"
    by (simp add: page_get_by_text_def default_exact_def)
  have l: "resolve (doc w) event_label = [last ms]"
    using assms(2,3) by (cases ms) (simp_all add: event_label_def locator_last_def)
  have "sorted (filter (\<lambda>i. text_matches False target_text (el_text (doc w ! i)))
      [0..<length (doc w)])"
    by (rule sorted_wrt_filter) simp
  then have "sorted ms"
    using assms(2) by (simp add: g)
  then have s: "\<forall>m \<in> set ms. m \<le> last ms"
    by (simp add: sorted_le_last)
  have c: "\<forall>i. Clicked i \<in> set (trace (snd (run w fs))) \<longrightarrow> i = last ms"
    using clicked_in_run[OF assms(1)] l by auto
  have k: "visible_within 5000 (el_visible_after (doc w ! last ms)) \<and>
     el_click_exn (doc w ! last ms) = None \<longrightarrow>
       Clicked (last ms) \<in> set (trace (snd (run w fs)))"
    using click_goes_through[OF assms(1) l] by simp
  have x: "set (resolve (doc w) (GetByText target_text True)) \<subseteq> set ms"
    using assms(2) by (auto simp: g exact_match_is_match)
  have y: "set ms \<subseteq> set (resolve (doc w) (GetByText target_text True)) \<longrightarrow>
       resolve (doc w) (GetByText target_text True) = ms"
  proof
    assume a: "set ms \<subseteq> set (resolve (doc w) (GetByText target_text True))"
    have "\<forall>i \<in> set [0..<length (doc w)].
        text_matches True target_text (el_text (doc w ! i)) =
        text_matches False target_text (el_text (doc w ! i))"
      using a assms(2) by (auto simp: g exact_match_is_match)
    then have "filter (\<lambda>i. text_matches True target_text (el_text (doc w ! i))) [0..<length (doc w)] =
        filter (\<lambda>i. text_matches False target_text (el_text (doc w ! i))) [0..<length (doc w)]"
      by (intro filter_cong) auto
    then show "resolve (doc w) (GetByText target_text True) = ms"
      using assms(2) by (simp add: g)
  qed
  show ?thesis
    using g l s c k x y label_wait_in_run[OF assms(1), of fs] by blast
qed

theorem label_is_last_text_match_witness:
  "reaches_ready caption_world \<and>
   resolve (doc caption_world) (page_get_by_text target_text default_exact) = [1, 2] \<and>
   resolve (doc caption_world) event_label = [2] \<and>
   Wait_for event_label 5000 \<in> set (trace (snd (run caption_world Map.empty))) \<and>
   Clicked 2 \<in> set (trace (snd (run caption_world Map.empty)))"
proof -
  have r: "reaches_ready caption_world"
    by (simp add: reaches_ready_def caption_world_def world_defs const_defs match_defs)
  have m: "resolve (doc caption_world) (page_get_by_text target_text default_exact) = [1, 2]"
    by (simp add: caption_world_def caption_el_def world_defs const_defs match_defs)
  have v: "visible_within 5000 (el_visible_after (doc caption_world ! 2)) \<and>
    el_click_exn (doc caption_world ! 2) = None"
    by (simp add: caption_world_def caption_el_def world_defs match_defs)
  have n: "[1, 2::nat] \<noteq> []" by simp
  show ?thesis
    using label_is_last_text_match[OF r m n, of Map.empty] r m v by simp
qed

text \<open>
  As worded, C4 has the element chosen by exact text. On a page with one element
  of exactly the target text (position 1) followed by an annotation that contains
  the text in lower case (position 2), the annotation is clicked and the exact
  element is not.
\<close>

theorem inexact_match_clicked_counterexample:
  "resolve (doc caption_world) (GetByText target_text True) = [1] \<and>
   Clicked 2 \<in> set (trace (snd (run caption_world Map.empty))) \<and>
   Clicked 1 \<notin> set (trace (snd (run caption_world Map.empty)))"
proof -
  have r: "reaches_ready caption_world"
    by (simp add: reaches_ready_def caption_world_def world_defs const_defs match_defs)
  have e: "resolve (doc caption_world) (GetByText target_text True) = [1]"
    by (simp add: caption_world_def caption_el_def world_defs const_defs match_defs)
  have l: "resolve (doc caption_world) event_label = [2]"
    by (simp add: caption_world_def caption_el_def world_defs const_defs match_defs)
  have v: "visible_within 5000 (el_visible_after (doc caption_world ! 2))"
    "el_click_exn (doc caption_world ! 2) = None"
    by (simp_all add: caption_world_def caption_el_def world_defs match_defs)
  have y: "Clicked 2 \<in> set (trace (snd (run caption_world Map.empty)))"
    by (rule click_goes_through[OF r l v])
  have n: "Clicked 1 \<notin> set (trace (snd (run caption_world Map.empty)))"
    using clicked_in_run[OF r, of 1 Map.empty] l by auto
  show ?thesis using e y n by simp
qed

text \<open>
  \<^bold>\<open>Claim C5\<close> (absorbed failures), as amended. In a run that reaches readiness,
  every exception \<open>e\<close> raised in the \<^verbatim>\<open>try\<close> body is caught by the handler: the
  \<^verbatim>\<open>try\<close> statement returns, standard output is the one line
  \<^verbatim>\<open>Error: \<close> followed by \<open>str(e)\<close>, and the next call is the pause, followed by
  the screenshot when the pause returns. A missing \<^verbatim>\<open>src\<close> attribute is not a
  failure: \<^verbatim>\<open>get_attribute\<close> returns \<^verbatim>\<open>None\<close>, nothing is raised, and the line
  printed is \<^verbatim>\<open>Image src: None\<close>.
\<close>

theorem raised_failures_are_absorbed:
  assumes "reaches_ready w"
  shows "(\<forall>e. fst (try_block w (ready_state w fs)) = Inl e \<longrightarrow>
       fst (try_except (try_block w) except_block (ready_state w fs)) = Inr () \<and>
       stdout (snd (run w fs)) = [''Error: '' @ exn_str e] \<and>
       trace (snd (run w fs)) =
         trace (snd (try_block w (ready_state w fs))) @ [Wait_for_timeout 1000] @ finish_events w \<and>
       (pause_exn w = None \<longrightarrow> hd (finish_events w) = Screenshot screenshot_path False)) \<and>
    (\<forall>i j. resolve (doc w) event_label = [i] \<and>
       visible_within 5000 (el_visible_after (doc w ! i)) \<and>
       el_click_exn (doc w ! i) = None \<and>
       resolve (doc_after_click w i) popover_img = [j] \<and>
       visible_within 2000 (el_visible_after (doc_after_click w i ! j)) \<and>
       map_of (el_attrs (doc_after_click w i ! j)) ''src'' = None \<longrightarrow>
         fst (try_block w (ready_state w fs)) = Inr () \<and>
         stdout (snd (run w fs)) = [''Image src: None''])"
proof (intro conjI allI impI)
  fix e
  assume f: "fst (try_block w (ready_state w fs)) = Inl e"
  show "fst (try_except (try_block w) except_block (ready_state w fs)) = Inr ()"
    by (rule try_statement_returns)
  show "stdout (snd (run w fs)) = [''Error: '' @ exn_str e]"
    by (simp add: run_ready_stdout[OF assms] after_try_raised[OF f])
  show "trace (snd (run w fs)) =
      trace (snd (try_block w (ready_state w fs))) @ [Wait_for_timeout 1000] @ finish_events w"
    by (simp add: run_ready_trace[OF assms] after_try_trace_eq)
next
  fix e
  assume "pause_exn w = None"
  then show "hd (finish_events w) = Screenshot screenshot_path False"
    by (simp add: finish_events_def split: option.splits)
next
  fix i j
  assume h: "resolve (doc w) event_label = [i] \<and>
       visible_within 5000 (el_visible_after (doc w ! i)) \<and>
       el_click_exn (doc w ! i) = None \<and>
       resolve (doc_after_click w i) popover_img = [j] \<and>
       visible_within 2000 (el_visible_after (doc_after_click w i ! j)) \<and>
       map_of (el_attrs (doc_after_click w i ! j)) ''src'' = None"
  then have t: "try_block w (ready_state w fs) =
    (Inr (),
     (ready_state w fs)\<lparr>trace := clicked_trace i @ [Get_attribute popover_img ''src''],
        stdout := [''Image src: '' @ py_format (map_of (el_attrs (doc_after_click w i ! j)) ''src'')],
        page_doc := doc_after_click w i\<rparr>)"
    by (intro interaction_returns) simp_all
  show f: "fst (try_block w (ready_state w fs)) = Inr ()"
    by (simp add: t)
  show "stdout (snd (run w fs)) = [''Image src: None'']"
    using h by (simp add: run_ready_stdout[OF assms] after_try_returned[OF f] t)
qed

theorem raised_failures_are_absorbed_witness:
  "reaches_ready no_popover_world \<and>
   fst (try_block no_popover_world (ready_state no_popover_world Map.empty)) =
     Inl (timeout_exceeded 2000) \<and>
   stdout (snd (run no_popover_world Map.empty)) = [''Error: '' @ exn_str (timeout_exceeded 2000)] \<and>
   trace (snd (run no_popover_world Map.empty)) =
     clicked_trace 1 @ [Wait_for_timeout 1000] @ finish_events no_popover_world \<and>
   hd (finish_events no_popover_world) = Screenshot screenshot_path False"
proof -
  have r: "reaches_ready no_popover_world"
    by (simp add: reaches_ready_def no_popover_world_def world_defs const_defs match_defs)
  have l: "resolve (doc no_popover_world) event_label = [1]"
    by (simp add: no_popover_world_def happy_world_def happy_label)
  have v: "visible_within 5000 (el_visible_after (doc no_popover_world ! 1))"
    "el_click_exn (doc no_popover_world ! 1) = None"
    by (simp_all add: no_popover_world_def world_defs match_defs)
  have p: "resolve (doc_after_click no_popover_world 1) popover_img = []"
    by (simp add: no_popover_world_def world_defs const_defs)
  note t = popover_absent_raises[OF l v p, of Map.empty]
  have f: "fst (try_block no_popover_world (ready_state no_popover_world Map.empty)) =
      Inl (timeout_exceeded 2000)"
    by (simp add: t)
  have g: "trace (snd (try_block no_popover_world (ready_state no_popover_world Map.empty))) =
      clicked_trace 1"
    by (simp add: t)
  have o: "pause_exn no_popover_world = None"
    by (simp add: no_popover_world_def happy_world_def)
  show ?thesis
    using raised_failures_are_absorbed[OF r, of Map.empty] r f g o by simp
qed

text \<open>
  As worded, C5 has a missing \<^verbatim>\<open>src\<close> attribute produce an error message. With a
  popover image that has no \<^verbatim>\<open>src\<close>, the \<^verbatim>\<open>try\<close> body returns and the output
  is the success form.
\<close>

theorem missing_src_prints_none_counterexample:
  "map_of (el_attrs (doc_after_click no_src_world 1 ! 2)) ''src'' = None \<and>
   fst (try_block no_src_world (ready_state no_src_world Map.empty)) = Inr () \<and>
   stdout (snd (run no_src_world Map.empty)) = [''Image src: None'']"
proof -
  have r: "reaches_ready no_src_world"
    by (simp add: reaches_ready_def no_src_world_def world_defs const_defs match_defs)
  have l: "resolve (doc no_src_world) event_label = [1]"
    by (simp add: no_src_world_def happy_world_def happy_label)
  have v: "visible_within 5000 (el_visible_after (doc no_src_world ! 1))"
    "el_click_exn (doc no_src_world ! 1) = None"
    by (simp_all add: no_src_world_def world_defs match_defs)
  have p: "resolve (doc_after_click no_src_world 1) popover_img = [2]"
    by (simp add: no_src_world_def world_defs const_defs)
  have q: "visible_within 2000 (el_visible_after (doc_after_click no_src_world 1 ! 2))"
    by (simp add: no_src_world_def world_defs match_defs)
  have a: "map_of (el_attrs (doc_after_click no_src_world 1 ! 2)) ''src'' = None"
    by (simp add: no_src_world_def world_defs)
  note t = interaction_returns[OF l v p q, of Map.empty]
  have f: "fst (try_block no_src_world (ready_state no_src_world Map.empty)) = Inr ()"
    by (simp add: t)
  have "stdout (snd (run no_src_world Map.empty)) =
      [''Image src: '' @ py_format (map_of (el_attrs (doc_after_click no_src_world 1 ! 2)) ''src'')]"
    by (simp add: run_ready_stdout[OF r] after_try_returned[OF f] t)
  then have "stdout (snd (run no_src_world Map.empty)) = [''Image src: None'']"
    unfolding a by simp
  with a f show ?thesis by simp
qed

text \<open>
  \<^bold>\<open>Claim C6\<close> (evidence capture), as amended. A run issues at most one screenshot
  call, always for the path \<^verbatim>\<open>verification/timeline_screenshot_clicked.png\<close> and
  with \<^verbatim>\<open>full_page\<close> left at its default, false: the image is of the viewport,
  not of the full page. When the run reaches readiness and the pause and the
  screenshot return, the file at that path is replaced by the new image and every
  other file is untouched; otherwise no file changes. So a run adds no file but
  that one, and a run that follows a capturing run leaves the set of files as it
  found it.
\<close>

theorem screenshot_fixed_path_viewport:
  "(\<exists>rest. [Screenshot screenshot_path False] = filter is_screenshot (trace (snd (run w fs))) @ rest) \<and>
   files (snd (run w fs)) =
     (if reaches_ready w \<and> pause_exn w = None \<and> screenshot_exn w = None
      then fs(screenshot_path \<mapsto>
             \<lparr>shot_full_page = False,
              shot_doc = page_doc (snd (try_except (try_block w) except_block (ready_state w fs)))\<rparr>)
      else fs) \<and>
   dom (files (snd (run w fs))) \<subseteq> insert screenshot_path (dom fs) \<and>
   (reaches_ready w \<and> pause_exn w = None \<and> screenshot_exn w = None \<longrightarrow>
      dom (files (snd (run w' (files (snd (run w fs)))))) = dom (files (snd (run w fs))))"
proof -
  have f: "\<And>w fs. files (snd (run w fs)) =
     (if reaches_ready w \<and> pause_exn w = None \<and> screenshot_exn w = None
      then fs(screenshot_path \<mapsto> \<lparr>shot_full_page = False, shot_doc = page_doc (after_try w fs)\<rparr>)
      else fs)"
  proof -
    fix w fs
    show "files (snd (run w fs)) =
     (if reaches_ready w \<and> pause_exn w = None \<and> screenshot_exn w = None
      then fs(screenshot_path \<mapsto> \<lparr>shot_full_page = False, shot_doc = page_doc (after_try w fs)\<rparr>)
      else fs)"
    proof (cases "reaches_ready w")
      case True
      show ?thesis
      proof (cases "pause_exn w")
        case (Some e)
        then show ?thesis
          using True by (simp add: run_pause_raises[OF True] after_try_files)
      next
        case None
        then show ?thesis
          using True
          by (cases "screenshot_exn w")
             (simp_all add: run_captures[OF True] run_screenshot_raises[OF True] after_try_files)
      qed
    next
      case False
      then show ?thesis
        by (simp add: run_not_ready(2))
    qed
  qed
  have t: "\<exists>rest. [Screenshot screenshot_path False] =
      filter is_screenshot (trace (snd (run w fs))) @ rest"
  proof (cases "reaches_ready w")
    case True
    then show ?thesis
      using no_screenshot_in_try[of w fs]
      by (auto simp: run_ready_trace[OF True] finish_events_def split: option.splits)
  next
    case False
    then show ?thesis
      by (auto simp: reaches_ready_def prelude_defs split: option.splits if_splits)
  qed
  show ?thesis
    using t by (auto simp: f after_try_def split: if_splits)
qed

theorem screenshot_fixed_path_viewport_witness:
  "reaches_ready happy_world \<and> pause_exn happy_world = None \<and> screenshot_exn happy_world = None \<and>
   files (snd (run happy_world Map.empty)) =
     [screenshot_path \<mapsto> \<lparr>shot_full_page = False, shot_doc = [heading_el, label_el, img_el]\<rparr>] \<and>
   dom (files (snd (run happy_world (files (snd (run happy_world Map.empty)))))) = {screenshot_path}"
proof -
  have h: "pause_exn happy_world = None" "screenshot_exn happy_world = None"
    by (simp_all add: happy_world_def)
  have t: "page_doc (snd (try_block happy_world (ready_state happy_world Map.empty))) =
      [heading_el, label_el, img_el]"
    by (subst interaction_returns[where i = 1 and j = 2])
       (simp_all add: happy_world_def happy_label happy_popover, simp_all add: world_defs match_defs)
  have d: "page_doc (snd (try_except (try_block happy_world) except_block
      (ready_state happy_world Map.empty))) = [heading_el, label_el, img_el]"
    using after_try_page_doc[of happy_world Map.empty] t by (simp add: after_try_def)
  note th = screenshot_fixed_path_viewport[of happy_world Map.empty happy_world]
  from th happy_ready h d
  have f1: "files (snd (run happy_world Map.empty)) =
      [screenshot_path \<mapsto> \<lparr>shot_full_page = False, shot_doc = [heading_el, label_el, img_el]\<rparr>]"
    by simp
  from th happy_ready h
  have f2: "dom (files (snd (run happy_world (files (snd (run happy_world Map.empty)))))) =
      dom (files (snd (run happy_world Map.empty)))"
    by blast
  have f3: "dom (files (snd (run happy_world Map.empty))) = {screenshot_path}"
    by (simp add: f1)
  show ?thesis
    using happy_ready h f1 trans[OF f2 f3] by blast
qed

text \<open>
  As worded, C6 has the screenshot be a full-page one. In the run where
  everything succeeds, the file written is not a full-page image.
\<close>

theorem screenshot_not_full_page_counterexample:
  "map_option shot_full_page (files (snd (run happy_world Map.empty)) screenshot_path) = Some False"
proof -
  have h: "pause_exn happy_world = None" "screenshot_exn happy_world = None"
    by (simp_all add: happy_world_def)
  show ?thesis
    by (simp add: run_captures[OF happy_ready h])
qed

text \<open>
  \<^bold>\<open>Claim C7\<close> (bounded waits, no retries). In every run, the waits for a
  condition that the script issues are, in this order and each at most once, the
  readiness wait with limit 10000 ms, the wait for the label with limit 5000 ms
  and the wait for the popover image with limit 2000 ms: the list of wait calls
  of a run is a prefix of that list. Each wait is a gate with its limit: the
  label is waited for only when the marker was visible within 10000 ms, the
  click is issued only when the label was visible within 5000 ms, and the
  attribute is read only when the popover image was visible within 2000 ms.
\<close>

theorem waits_single_bounded:
  "(\<exists>rest. [Wait_for_selector readiness_marker 10000, Wait_for event_label 5000,
            Wait_for popover_img 2000] =
     filter is_wait (trace (snd (run w fs))) @ rest) \<and>
   (Wait_for event_label 5000 \<in> set (trace (snd (run w fs))) \<longrightarrow>
      visible_within 10000 (selector_visible_after w readiness_marker)) \<and>
   (Click event_label \<in> set (trace (snd (run w fs))) \<longrightarrow>
      (\<exists>i. resolve (doc w) event_label = [i] \<and>
           visible_within 5000 (el_visible_after (doc w ! i)))) \<and>
   (Get_attribute popover_img ''src'' \<in> set (trace (snd (run w fs))) \<longrightarrow>
      (\<exists>i j. resolve (doc w) event_label = [i] \<and>
           resolve (doc_after_click w i) popover_img = [j] \<and>
           visible_within 2000 (el_visible_after (doc_after_click w i ! j))))"
proof -
  have p: "\<exists>rest. [Wait_for_selector readiness_marker 10000, Wait_for event_label 5000,
            Wait_for popover_img 2000] =
     filter is_wait (trace (snd (run w fs))) @ rest"
  proof (cases "reaches_ready w")
    case True
    obtain evs where e: "trace (after_try w fs) = ready_trace @ evs"
      using after_try_trace by blast
    then have d: "drop 5 (trace (snd (try_block w (ready_state w fs)))) = evs"
      by (simp add: after_try_trace_eq[symmetric] ready_trace_def)
    have f: "filter is_wait (finish_events w) = []"
      by (simp add: finish_events_def split: option.splits)
    obtain rest where "[Wait_for event_label 5000, Wait_for popover_img 2000] =
        filter is_wait evs @ rest"
      using try_block_waits[of w fs] d by auto
    then show ?thesis
      using e f by (simp add: run_ready_trace[OF True] ready_trace_def)
  next
    case False
    then show ?thesis
      by (auto simp: reaches_ready_def prelude_defs split: option.splits if_splits)
  qed
  have a: "Wait_for event_label 5000 \<in> set (trace (snd (run w fs))) \<longrightarrow>
      visible_within 10000 (selector_visible_after w readiness_marker)"
    using in_run_in_try[of "Wait_for event_label 5000" w fs]
    by (auto simp: reaches_ready_def)
  have b: "Click event_label \<in> set (trace (snd (run w fs))) \<longrightarrow>
      (\<exists>i. resolve (doc w) event_label = [i] \<and>
           visible_within 5000 (el_visible_after (doc w ! i)))"
    using in_run_in_try[of "Click event_label" w fs] wait_gates_in_try(1)[of w fs]
    by auto
  have c: "Get_attribute popover_img ''src'' \<in> set (trace (snd (run w fs))) \<longrightarrow>
      (\<exists>i j. resolve (doc w) event_label = [i] \<and>
           resolve (doc_after_click w i) popover_img = [j] \<and>
           visible_within 2000 (el_visible_after (doc_after_click w i ! j)))"
    using in_run_in_try[of "Get_attribute popover_img ''src''" w fs]
      wait_gates_in_try(2)[of w fs]
    by auto
  show ?thesis using p a b c by blast
qed

theorem waits_single_bounded_witness:
  "filter is_wait (trace (snd (run happy_world Map.empty))) =
     [Wait_for_selector readiness_marker 10000, Wait_for event_label 5000,
      Wait_for popover_img 2000] \<and>
   Wait_for event_label 5000 \<in> set (trace (snd (run happy_world Map.empty))) \<and>
   Click event_label \<in> set (trace (snd (run happy_world Map.empty))) \<and>
   Get_attribute popover_img ''src'' \<in> set (trace (snd (run happy_world Map.empty))) \<and>
   visible_within 10000 (selector_visible_after happy_world readiness_marker)"
proof -
  have t: "trace (snd (try_block happy_world (ready_state happy_world Map.empty))) =
      clicked_trace 1 @ [Get_attribute popover_img ''src'']"
    by (subst interaction_returns[where i = 1 and j = 2])
       (simp_all add: happy_world_def happy_label happy_popover, simp_all add: world_defs match_defs)
  have tr: "trace (snd (run happy_world Map.empty)) =
      clicked_trace 1 @ [Get_attribute popover_img ''src'', Wait_for_timeout 1000,
        Screenshot screenshot_path False, Close, Exit_sync_playwright]"
    unfolding run_ready_trace[OF happy_ready] after_try_trace_eq t
    by (simp add: finish_events_def happy_world_def)
  show ?thesis
    using waits_single_bounded[of happy_world Map.empty]
    unfolding tr by (simp add: clicked_trace_def ready_trace_def)
qed

text \<open>
  \<^bold>\<open>Claim C8\<close> (the source is printed). In every run that reaches readiness and
  in which the label is visible within 5000 ms, the click goes through, the
  overlay query matches one image, that image is visible within 2000 ms and its
  \<^verbatim>\<open>src\<close> attribute is \<open>v\<close>, the attribute is read and standard output is the
  line \<^verbatim>\<open>Image src: \<close> followed by \<open>v\<close>.
\<close>

theorem image_source_is_printed:
  assumes "reaches_ready w"
    and "resolve (doc w) event_label = [i]"
    and "visible_within 5000 (el_visible_after (doc w ! i))"
    and "el_click_exn (doc w ! i) = None"
    and "resolve (doc_after_click w i) popover_img = [j]"
    and "visible_within 2000 (el_visible_after (doc_after_click w i ! j))"
    and "map_of (el_attrs (doc_after_click w i ! j)) ''src'' = Some v"
  shows "fst (try_block w (ready_state w fs)) = Inr () \<and>
    Get_attribute popover_img ''src'' \<in> set (trace (snd (run w fs))) \<and>
    stdout (snd (run w fs)) = [''Image src: '' @ v]"
proof -
  note r = interaction_returns[OF assms(2-6), of fs]
  have "fst (try_block w (ready_state w fs)) = Inr ()"
    by (simp add: r)
  moreover from this have "after_try w fs = snd (try_block w (ready_state w fs))"
    by (rule after_try_returned)
  ultimately show ?thesis
    using assms(7)
    by (simp add: run_ready_trace[OF assms(1)] run_ready_stdout[OF assms(1)] r)
qed

theorem image_source_is_printed_witness:
  "reaches_ready happy_world \<and>
   resolve (doc happy_world) event_label = [1] \<and>
   resolve (doc_after_click happy_world 1) popover_img = [2] \<and>
   map_of (el_attrs (doc_after_click happy_world 1 ! 2)) ''src'' = Some ''/images/sangiran.jpg'' \<and>
   stdout (snd (run happy_world Map.empty)) = [''Image src: /images/sangiran.jpg'']"
proof -
  have l: "resolve (doc happy_world) event_label = [1]"
    by (simp add: happy_world_def happy_label)
  have v: "visible_within 5000 (el_visible_after (doc happy_world ! 1))"
    "el_click_exn (doc happy_world ! 1) = None"
    by (simp_all add: world_defs match_defs)
  have p: "resolve (doc_after_click happy_world 1) popover_img = [2]"
    by (simp add: happy_world_def happy_popover)
  have q: "visible_within 2000 (el_visible_after (doc_after_click happy_world 1 ! 2))"
    by (simp add: world_defs match_defs)
  have a: "map_of (el_attrs (doc_after_click happy_world 1 ! 2)) ''src'' =
      Some ''/images/sangiran.jpg''"
    by (simp add: world_defs)
  show ?thesis
    using image_source_is_printed[OF happy_ready l v p q a, of Map.empty] l p a happy_ready
    by simp
qed

text \<open>
  \<^bold>\<open>Claim C9\<close> (settle pause). In every run that reaches readiness, whatever the
  outcome of the \<^verbatim>\<open>try\<close> statement, the call that follows it is
  \<^verbatim>\<open>wait_for_timeout(1000)\<close>; no screenshot call precedes it, and it is the only
  pause of the run.
\<close>

theorem pause_follows_interaction:
  assumes "reaches_ready w"
  shows "(\<exists>post. trace (snd (run w fs)) =
            trace (snd (try_except (try_block w) except_block (ready_state w fs))) @
            [Wait_for_timeout 1000] @ post) \<and>
    filter is_screenshot (trace (snd (try_except (try_block w) except_block (ready_state w fs)))) = [] \<and>
    filter is_pause (trace (snd (run w fs))) = [Wait_for_timeout 1000]"
proof -
  have "filter is_pause (finish_events w) = []"
    by (simp add: finish_events_def split: option.splits)
  then show ?thesis
    using run_ready_trace[OF assms, of fs] no_screenshot_in_try[of w fs] no_pause_in_try[of w fs]
    by (simp add: after_try_def)
qed

theorem pause_follows_interaction_witness:
  "reaches_ready happy_world \<and> reaches_ready absent_world \<and>
   filter is_pause (trace (snd (run happy_world Map.empty))) = [Wait_for_timeout 1000] \<and>
   filter is_pause (trace (snd (run absent_world Map.empty))) = [Wait_for_timeout 1000] \<and>
   fst (try_block happy_world (ready_state happy_world Map.empty)) = Inr () \<and>
   fst (try_block absent_world (ready_state absent_world Map.empty)) = Inl (timeout_exceeded 5000)"
proof -
  have a: "resolve (doc absent_world) event_label = []"
    by (simp add: absent_world_def world_defs const_defs match_defs)
  have h: "fst (try_block happy_world (ready_state happy_world Map.empty)) = Inr ()"
    by (subst interaction_returns[where i = 1 and j = 2])
       (simp_all add: happy_world_def happy_label happy_popover, simp_all add: world_defs match_defs)
  show ?thesis
    using pause_follows_interaction[OF happy_ready, of Map.empty]
      pause_follows_interaction[OF absent_reaches_ready, of Map.empty]
      happy_ready absent_reaches_ready h label_absent_raises[OF a, of Map.empty]
    by simp
qed

text \<open>
  \<^bold>\<open>Claim C10\<close> (ambiguous popover). In a run that reaches readiness and clicks
  the label, when the overlay query matches more than one image the wait on the
  popover locator raises a strict mode violation: no attribute is read from any
  image. The handler absorbs the exception and prints it, and the run goes on
  with the pause; the pause and the screenshot returning, the screenshot is
  written and the browser closed, and the run returns when the close does.
\<close>

theorem ambiguous_popover_is_absorbed:
  assumes "reaches_ready w"
    and "resolve (doc w) event_label = [i]"
    and "visible_within 5000 (el_visible_after (doc w ! i))"
    and "el_click_exn (doc w ! i) = None"
    and "1 < length (resolve (doc_after_click w i) popover_img)"
  shows "fst (try_block w (ready_state w fs)) =
      Inl (strict_mode_violation (length (resolve (doc_after_click w i) popover_img))) \<and>
    fst (try_except (try_block w) except_block (ready_state w fs)) = Inr () \<and>
    stdout (snd (run w fs)) =
      [''Error: '' @ exn_str (strict_mode_violation
         (length (resolve (doc_after_click w i) popover_img)))] \<and>
    filter (\<lambda>ev. ev = Get_attribute popover_img ''src'') (trace (snd (run w fs))) = [] \<and>
    trace (snd (run w fs)) = clicked_trace i @ [Wait_for_timeout 1000] @ finish_events w \<and>
    (pause_exn w = None \<and> screenshot_exn w = None \<longrightarrow>
       finish_events w = [Screenshot screenshot_path False, Close, Exit_sync_playwright] \<and>
       files (snd (run w fs)) screenshot_path =
         Some \<lparr>shot_full_page = False, shot_doc = doc_after_click w i\<rparr> \<and>
       (close_exn w = None \<longrightarrow> fst (run w fs) = Inr ()))"
proof -
  note r = popover_ambiguous_raises[OF assms(2-5), of fs]
  have f: "fst (try_block w (ready_state w fs)) =
      Inl (strict_mode_violation (length (resolve (doc_after_click w i) popover_img)))"
    by (simp add: r)
  note a = after_try_raised[OF f]
  have g: "filter (\<lambda>ev. ev = Get_attribute popover_img ''src'') (finish_events w) = []"
    by (simp add: finish_events_def split: option.splits)
  have t: "trace (snd (run w fs)) = clicked_trace i @ [Wait_for_timeout 1000] @ finish_events w"
    by (simp add: run_ready_trace[OF assms(1)] a r)
  have c: "pause_exn w = None \<and> screenshot_exn w = None \<longrightarrow>
       finish_events w = [Screenshot screenshot_path False, Close, Exit_sync_playwright] \<and>
       files (snd (run w fs)) screenshot_path =
         Some \<lparr>shot_full_page = False, shot_doc = doc_after_click w i\<rparr> \<and>
       (close_exn w = None \<longrightarrow> fst (run w fs) = Inr ())"
    by (auto simp: run_captures[OF assms(1)] finish_events_def a r)
  show ?thesis
    using f t c g
    by (simp add: try_statement_returns run_ready_stdout[OF assms(1)] a
        clicked_trace_def ready_trace_def)
qed

theorem ambiguous_popover_is_absorbed_witness:
  "reaches_ready two_images_world \<and>
   resolve (doc two_images_world) event_label = [1] \<and>
   resolve (doc_after_click two_images_world 1) popover_img = [2, 3] \<and>
   fst (try_block two_images_world (ready_state two_images_world Map.empty)) =
     Inl (strict_mode_violation 2) \<and>
   stdout (snd (run two_images_world Map.empty)) =
     [''Error: '' @ exn_str (strict_mode_violation 2)] \<and>
   trace (snd (run two_images_world Map.empty)) =
     clicked_trace 1 @ [Wait_for_timeout 1000, Screenshot screenshot_path False, Close,
       Exit_sync_playwright] \<and>
   fst (run two_images_world Map.empty) = Inr ()"
proof -
  have r: "reaches_ready two_images_world"
    by (simp add: reaches_ready_def two_images_world_def world_defs const_defs match_defs)
  have l: "resolve (doc two_images_world) event_label = [1]"
    by (simp add: two_images_world_def happy_world_def happy_label)
  have v: "visible_within 5000 (el_visible_after (doc two_images_world ! 1))"
    "el_click_exn (doc two_images_world ! 1) = None"
    by (simp_all add: two_images_world_def world_defs match_defs)
  have p: "resolve (doc_after_click two_images_world 1) popover_img = [2, 3]"
    by (simp add: two_images_world_def two_images_popover)
  then have n: "1 < length (resolve (doc_after_click two_images_world 1) popover_img)"
    by simp
  have o: "pause_exn two_images_world = None" "screenshot_exn two_images_world = None"
    "close_exn two_images_world = None"
    by (simp_all add: two_images_world_def happy_world_def)
  show ?thesis
    using ambiguous_popover_is_absorbed[OF r l v n, of Map.empty] r l p o
    by (simp add: numeral_2_eq_2)
qed

end
